theory Spec2Isabelle
  imports Complex_Main "HOL-Library.Word"
begin

section \<open>Images and the fixed palette\<close>

text \<open>
  Samples are bytes (numpy \<open>uint8\<close>). A grayscale frame is a list of rows of samples, an
  RGB image a list of rows of triples, and a palette-mode image a list of rows of palette
  indices, one byte each.
\<close>

type_synonym byte = "8 word"
type_synonym rgb = "byte \<times> byte \<times> byte"
type_synonym gray_frame = "byte list list"
type_synonym bgr_frame = "rgb list list"
type_synonym rgb_image = "rgb list list"
type_synonym p_image = "byte list list"

text \<open>\<open>ISB_MESSAGE_ID = 0x20\<close>\<close>

definition ISB_MESSAGE_ID :: byte where
  "ISB_MESSAGE_ID = 0x20"

text \<open>
  \<open>FIXED_PALETTE_4_COLORS = np.array([[0, 0, 0], [85, 85, 85], [170, 170, 170], [255, 255, 255]])\<close>
\<close>

definition FIXED_PALETTE_4_COLORS :: "int list list" where
  "FIXED_PALETTE_4_COLORS = [[0, 0, 0], [85, 85, 85], [170, 170, 170], [255, 255, 255]]"

text \<open>\<open>arr.astype(np.uint8).tobytes()\<close>: every entry reduced modulo 256, rows concatenated.\<close>

definition astype_uint8_tobytes :: "int list list \<Rightarrow> byte list" where
  "astype_uint8_tobytes arr = concat (map (map word_of_int) arr)"

text \<open>
  \<open>Image.putpalette(data)\<close>: the palette of a \<open>P\<close> image is the sequence of RGB triples read
  from the bytes, three at a time; a trailing group of fewer than three bytes is no entry.
\<close>

fun putpalette :: "byte list \<Rightarrow> rgb list" where
  "putpalette (r # g # b # rest) = (r, g, b) # putpalette rest"
| "putpalette _ = []"

text \<open>\<open>img.convert('RGB')\<close> of a grayscale image: the sample in all three channels.\<close>

definition convert_RGB :: "gray_frame \<Rightarrow> rgb_image" where
  "convert_RGB img = map (map (\<lambda>v. (v, v, v))) img"

text \<open>
  Modelled from the spec: \<open>Image.quantize(palette=...)\<close> belongs to the imaging library, which
  is not among the sources. The spec describes it as converting each sample to the nearest
  palette entry by minimising a distance metric, deterministically, without dithering and
  without a random tie-break. The distance is the squared Euclidean distance of the RGB
  triples; of several nearest entries the first one wins.
\<close>

definition rgb_distance :: "rgb \<Rightarrow> rgb \<Rightarrow> int" where
  "rgb_distance c p =
     (case (c, p) of ((r, g, b), (pr, pg, pb)) \<Rightarrow>
        (uint r - uint pr)\<^sup>2 + (uint g - uint pg)\<^sup>2 + (uint b - uint pb)\<^sup>2)"

fun argmin_from :: "nat \<Rightarrow> nat \<Rightarrow> int \<Rightarrow> int list \<Rightarrow> nat" where
  "argmin_from i best bv [] = best"
| "argmin_from i best bv (d # ds) =
     (if d < bv then argmin_from (Suc i) i d ds else argmin_from (Suc i) best bv ds)"

definition nearest_index :: "rgb list \<Rightarrow> rgb \<Rightarrow> nat" where
  "nearest_index pal c =
     (case map (rgb_distance c) pal of [] \<Rightarrow> 0 | d # ds \<Rightarrow> argmin_from 1 0 d ds)"

definition quantize :: "rgb list \<Rightarrow> rgb_image \<Rightarrow> p_image" where
  "quantize pal img = map (map (\<lambda>c. of_nat (nearest_index pal c))) img"

text \<open>Mapping a palette-mode image back through its palette.\<close>

definition palette_lookup :: "rgb list \<Rightarrow> p_image \<Rightarrow> rgb_image" where
  "palette_lookup pal img = map (map (\<lambda>i. pal ! unat i)) img"

text \<open>The palette bytes and the palette image that \<open>FinalStreamer.__init__\<close> builds.\<close>

definition init_palette_bytes :: "byte list" where
  "init_palette_bytes = astype_uint8_tobytes FIXED_PALETTE_4_COLORS"

definition init_palette_image :: "rgb list" where
  "init_palette_image = putpalette init_palette_bytes"

text \<open>
  Lines 109 to 111 of \<open>_frame_consumer\<close>: the grayscale image promoted to RGB and quantized
  against the palette image.
\<close>

definition quantize_gray :: "rgb list \<Rightarrow> gray_frame \<Rightarrow> p_image" where
  "quantize_gray pal img = quantize pal (convert_RGB img)"


section \<open>Encoding a frame (lines 107 to 122 of \<open>_frame_consumer\<close>)\<close>

text \<open>
  The exceptions of the model. \<open>EncodingError\<close> is the spec's name for the failure of the
  pixel-count check; \<open>CancelledError\<close> is what the event loop raises in a task that is
  still suspended when the session ends.
\<close>

datatype py_error = ZeroDivisionError | ValueError | OverflowError | EncodingError
  | CancelledError

text \<open>
  Modelled from the spec: \<open>Image.fromarray(...).resize(size, Image.Resampling.NEAREST)\<close> is
  the imaging library's. The spec describes it as nearest-neighbour resampling to the target
  width and height: output sample \<open>(x, y)\<close> is the input sample under the centre of the output
  pixel. The library accepts no target side below 1; a decoded frame is never empty, and the
  model rejects an empty one as well. A row shorter than the first one reads as 0.
\<close>

definition sample_at :: "gray_frame \<Rightarrow> nat \<Rightarrow> nat \<Rightarrow> byte" where
  "sample_at img y x = (if y < length img \<and> x < length (img ! y) then img ! y ! x else 0)"

definition resize_NEAREST :: "gray_frame \<Rightarrow> int \<Rightarrow> int \<Rightarrow> py_error + gray_frame" where
  "resize_NEAREST img w h =
     (if w < 1 \<or> h < 1 then Inl ValueError
      else case img of
        [] \<Rightarrow> Inl ValueError
      | row # _ \<Rightarrow>
          if row = [] then Inl ValueError
          else Inr (map (\<lambda>y. map (\<lambda>x. sample_at img
                            (((2 * y + 1) * length img) div (2 * nat h))
                            (((2 * x + 1) * length row) div (2 * nat w)))
                          [0..<nat w])
                     [0..<nat h]))"

text \<open>\<open>quantized_img.tobytes()\<close> of a palette-mode image: one byte per pixel, row by row.\<close>

definition tobytes :: "p_image \<Rightarrow> byte list" where
  "tobytes img = concat img"

text \<open>Lines 107 to 112: resize, promote to RGB, quantize against the palette image, flatten.\<close>

definition frame_pixel_data :: "int \<Rightarrow> int \<Rightarrow> rgb list \<Rightarrow> gray_frame \<Rightarrow> py_error + byte list" where
  "frame_pixel_data w h pal_img gray_frame_data =
     (case resize_NEAREST gray_frame_data w h of
        Inl e \<Rightarrow> Inl e
      | Inr img \<Rightarrow> Inr (tobytes (quantize pal_img (convert_RGB img))))"

text \<open>
  \<open>TxSprite\<close> and \<open>TxImageSpriteBlock\<close> are classes of the device library, which is not among
  the sources. A sprite is the record of its constructor arguments.
\<close>

record TxSprite =
  sprite_width :: int
  sprite_height :: int
  num_colors :: int
  palette_data :: "byte list"
  pixel_data :: "byte list"
  compress :: bool

text \<open>A line packet's sprite, with the index of the scanline group it carries.\<close>

record sprite_line =
  line_index :: nat
  line_sprite :: TxSprite

record TxImageSpriteBlock =
  isb_image :: TxSprite
  sprite_line_height :: int
  progressive_render :: bool
  sprite_lines :: "sprite_line list"

text \<open>
  Modelled from the spec: the constructor of \<open>TxImageSpriteBlock\<close>. The spec gives a block one
  line packet per scanline group, \<open>k\<close> of them with \<open>k\<close> = sprite height / line-group height,
  each with its line index; group \<open>i\<close> carries the pixel bytes of rows \<open>i * line_height\<close> up to
  \<open>(i + 1) * line_height\<close>. The spec has this step fail with \<open>EncodingError\<close> when the
  number of pixel bytes is inconsistent with width times height: a defensive check, made
  before anything is split or packed. The division raises for a line height of 0.
\<close>

definition split_into_lines :: "TxSprite \<Rightarrow> int \<Rightarrow> sprite_line list" where
  "split_into_lines sprite lh =
     (let n = nat (sprite_width sprite * lh) in
      map (\<lambda>i. \<lparr>line_index = i,
                 line_sprite = sprite\<lparr>sprite_height := lh,
                                       pixel_data := take n (drop (i * n) (pixel_data sprite))\<rparr>\<rparr>)
        [0..<nat (sprite_height sprite div lh)])"

definition new_TxImageSpriteBlock ::
    "TxSprite \<Rightarrow> int \<Rightarrow> bool \<Rightarrow> py_error + TxImageSpriteBlock" where
  "new_TxImageSpriteBlock sprite lh pr =
     (if int (length (pixel_data sprite)) \<noteq> sprite_width sprite * sprite_height sprite
      then Inl EncodingError
      else if lh = 0 then Inl ZeroDivisionError
      else Inr \<lparr>isb_image = sprite, sprite_line_height = lh, progressive_render = pr,
                sprite_lines = split_into_lines sprite lh\<rparr>)"

text \<open>
  What \<open>pack()\<close> returns is the serialisation of its object; a payload is identified with the
  object it serialises: \<open>isb.pack()\<close> is the header packet of the block, \<open>line_sprite.pack()\<close>
  the packet of one scanline group. A message is a payload with its message id, as
  \<open>send_message\<close> receives them.
\<close>

datatype payload = Packed_block TxImageSpriteBlock | Packed_line sprite_line

type_synonym message = "byte \<times> payload"

text \<open>
  Lines 114 to 122: the sprite is built from the pixel data as it is, the block is built with
  \<open>sprite_line_height = sprite.height\<close> and \<open>progressive_render = False\<close>, and the payloads
  are the packed block followed by each packed line, in the order of \<open>isb.sprite_lines\<close>.
\<close>

definition sprite_payloads :: "int \<Rightarrow> int \<Rightarrow> byte list \<Rightarrow> byte list \<Rightarrow> py_error + payload list" where
  "sprite_payloads w h pal_bytes px =
     (let sprite = \<lparr>sprite_width = w, sprite_height = h, num_colors = 4,
                     palette_data = pal_bytes, pixel_data = px, compress = False\<rparr>
      in case new_TxImageSpriteBlock sprite (sprite_height sprite) False of
           Inl e \<Rightarrow> Inl e
         | Inr isb \<Rightarrow> Inr (Packed_block isb # map Packed_line (sprite_lines isb)))"

definition encode_frame ::
    "int \<Rightarrow> int \<Rightarrow> byte list \<Rightarrow> rgb list \<Rightarrow> gray_frame \<Rightarrow> py_error + payload list" where
  "encode_frame w h pal_bytes pal_img gray_frame_data =
     (case frame_pixel_data w h pal_img gray_frame_data of
        Inl e \<Rightarrow> Inl e
      | Inr px \<Rightarrow> sprite_payloads w h pal_bytes px)"

section \<open>The decimation stride (lines 84 and 85 of \<open>_frame_producer\<close>)\<close>

text \<open>
  Python's \<open>round\<close> of a float: the nearest integer, a tie going to the even one. Frame rates
  are rationals here and the quotient is exact; the rounding of the float quotient is not
  modelled.
\<close>

definition py_round :: "rat \<Rightarrow> int" where
  "py_round x =
     (let f = \<lfloor>x\<rfloor>; d = x - of_int f
      in if d < 1 / 2 then f else if 1 / 2 < d then f + 1 else if even f then f else f + 1)"

text \<open>
  \<open>source_fps = cap.get(cv2.CAP_PROP_FPS) or 30\<close>: a reported rate of 0 (none) is replaced by
  30. \<open>frame_step = max(1, round(source_fps / self.fps_limit))\<close>: the division of a float by
  an integer first converts the integer to a float, which raises \<open>OverflowError\<close> for an
  integer that rounds beyond the largest float (from \<open>2^1024 - 2^970\<close> on), and then raises
  \<open>ZeroDivisionError\<close> for a limit of 0.
\<close>

definition source_fps_or_30 :: "rat \<Rightarrow> rat" where
  "source_fps_or_30 r = (if r = 0 then 30 else r)"

definition float_of_int_overflows :: "int \<Rightarrow> bool" where
  "float_of_int_overflows n = (2 ^ 1024 - 2 ^ 970 \<le> \<bar>n\<bar>)"

definition compute_frame_step :: "rat \<Rightarrow> int \<Rightarrow> py_error + int" where
  "compute_frame_step source_fps fps_limit =
     (if float_of_int_overflows fps_limit then Inl OverflowError
      else if fps_limit = 0 then Inl ZeroDivisionError
      else Inr (max 1 (py_round (source_fps / of_int fps_limit))))"

text \<open>The elements of a list whose index, counted from 0, is a multiple of \<open>k\<close>.\<close>

definition every_nth :: "int \<Rightarrow> 'a list \<Rightarrow> 'a list" where
  "every_nth k xs = map snd (filter (\<lambda>(i, x). int i mod k = 0) (enumerate 0 xs))"


section \<open>The streamer, its queue and its two tasks\<close>

text \<open>
  The video file as the program sees it: whether the path is a regular file, whether
  \<open>cv2.VideoCapture\<close> opens it, the frame rate it reports (0 when it reports none), and the
  results of the successive calls of \<open>cap.read()\<close>: \<open>Some frame\<close> for \<open>(True, frame)\<close>,
  \<open>None\<close> for a failed read; past the end of the list every read fails.
\<close>

record video_file =
  is_file :: bool
  openable :: bool
  native_fps :: rat
  reads :: "bgr_frame option list"

text \<open>
  The command line (\<open>--width\<close>, \<open>--height\<close>, \<open>--fps\<close>, each any integer) and the
  environment. \<open>cv2.cvtColor(frame, cv2.COLOR_BGR2GRAY)\<close> is the vision library's and is taken
  as a parameter: some function from three-channel frames to single-channel frames.
  \<open>link_up\<close> says whether \<open>self.frame.connect()\<close> succeeds.
\<close>

record config =
  video :: video_file
  arg_width :: int
  arg_height :: int
  arg_fps :: int
  cvtColor_BGR2GRAY :: "bgr_frame \<Rightarrow> gray_frame"
  link_up :: bool

text \<open>A queue item is a grayscale frame or Python's \<open>None\<close>, the end-of-stream marker.\<close>

type_synonym item = "gray_frame option"

text \<open>
  Each task is a coroutine; between two of its suspension points it runs alone. The program
  counter of a task names the point it has reached. The producer is at its start, at the
  test of its loop, at \<open>await queue.put(gray_frame)\<close> with the frame in hand, at
  \<open>await queue.put(None)\<close>, at \<open>cap.release()\<close>, returned, or ended by an exception. The
  consumer is at the test of its loop, at \<open>await queue.get()\<close>, at the
  \<open>await self.frame.send_message(...)\<close> calls of one frame with the payloads still to send,
  returned, or ended by an exception.
\<close>

datatype ppc = P_Start | P_Loop | P_Put gray_frame | P_PutNone | P_Release | P_Done
  | P_Raised py_error

datatype cpc = C_Loop | C_Get | C_Send "payload list" | C_Done | C_Raised py_error

text \<open>
  The state of a streaming session: the fields of \<open>FinalStreamer\<close>, the transport (whether
  it is connected, the messages it was handed, in order), the console, the queue with its
  capacity, and the local variables of the two tasks. A console line is the fixed part of
  the printed message; the progress line of the consumer, which depends on the clock, is
  left out. The last four fields are history: every item ever put on the queue, every item
  ever taken from it, every frame the producer decoded, and every frame the consumer
  encoded.

  The palette bytes and the palette image are objects: \<open>objects\<close> holds every palette object
  built so far, in the order they were built, and the fields \<open>palette_bytes\<close> and
  \<open>palette_image\<close> are references, the positions of their objects. Building a palette
  object appends it to \<open>objects\<close>; reading through a reference builds nothing.
\<close>

datatype object = Bytes_object "byte list" | Image_object "rgb list"

definition bytes_at :: "object list \<Rightarrow> nat \<Rightarrow> byte list" where
  "bytes_at objs a =
     (if a < length objs then (case objs ! a of Bytes_object b \<Rightarrow> b | Image_object i \<Rightarrow> [])
      else [])"

definition image_at :: "object list \<Rightarrow> nat \<Rightarrow> rgb list" where
  "image_at objs a =
     (if a < length objs then (case objs ! a of Image_object i \<Rightarrow> i | Bytes_object b \<Rightarrow> [])
      else [])"

record pipeline =
  width :: int
  height :: int
  fps_limit :: int
  running :: bool
  objects :: "object list"
  palette_bytes :: nat
  palette_image :: nat
  connected :: bool
  sent :: "message list"
  console :: "string list"
  maxsize :: nat
  queue :: "item list"
  producer :: ppc
  cap_opened :: bool
  cap_released :: bool
  cap_pending :: "bgr_frame option list"
  frame_step :: int
  frame_number :: int
  consumer :: cpc
  sent_frames :: nat
  enqueued :: "item list"
  dequeued :: "item list"
  decoded :: "bgr_frame list"
  encoded :: "gray_frame list"

text \<open>
  \<open>FinalStreamer.__init__\<close>: the arguments are stored, \<open>running\<close> is false, and the palette
  bytes and the palette image are built, in this order, and the fields refer to them.
\<close>

definition new_FinalStreamer :: "config \<Rightarrow> pipeline" where
  "new_FinalStreamer cfg =
     \<lparr>width = arg_width cfg, height = arg_height cfg, fps_limit = arg_fps cfg,
      running = False,
      objects = [Bytes_object (astype_uint8_tobytes FIXED_PALETTE_4_COLORS),
                 Image_object (putpalette (astype_uint8_tobytes FIXED_PALETTE_4_COLORS))],
      palette_bytes = 0,
      palette_image = 1,
      connected = False, sent = [], console = [],
      maxsize = 0, queue = [],
      producer = P_Start, cap_opened = False, cap_released = False, cap_pending = [],
      frame_step = 0, frame_number = 0,
      consumer = C_Loop, sent_frames = 0,
      enqueued = [], dequeued = [], decoded = [], encoded = []\<rparr>"

text \<open>
  \<open>asyncio.Queue.full()\<close>: a queue of capacity 0 is never full, any other is full when it
  holds as many items as its capacity. \<open>put\<close> suspends its caller while the queue is full,
  \<open>get\<close> while it is empty.
\<close>

definition queue_full :: "pipeline \<Rightarrow> bool" where
  "queue_full s = (0 < maxsize s \<and> maxsize s \<le> length (queue s))"

text \<open>
  One turn of \<open>_frame_producer\<close>, from the point it has reached to its next suspension point.
  A turn taken while \<open>put\<close> is suspended changes nothing. No line of the function catches an
  exception, and \<open>cap.release()\<close> is its last statement. The exceptions of a turn are those of
  the stride computation; the cancellation of a suspended task belongs to the end of the
  session (\<open>cancel_suspended\<close>).
\<close>

definition producer_step :: "config \<Rightarrow> pipeline \<Rightarrow> pipeline" where
  "producer_step cfg s =
     (case producer s of
        P_Start \<Rightarrow>
          if \<not> openable (video cfg)
          then s\<lparr>console := console s @ [''Error: Could not open video file''],
                 running := False, producer := P_Done\<rparr>
          else
            (case compute_frame_step (source_fps_or_30 (native_fps (video cfg))) (fps_limit s) of
               Inl e \<Rightarrow> s\<lparr>cap_opened := True, cap_pending := reads (video cfg),
                           producer := P_Raised e\<rparr>
             | Inr k \<Rightarrow> s\<lparr>cap_opened := True, cap_pending := reads (video cfg),
                           frame_step := k, console := console s @ [''Source video''],
                           frame_number := 0, producer := P_Loop\<rparr>)
      | P_Loop \<Rightarrow>
          if \<not> running s then s\<lparr>producer := P_PutNone\<rparr>
          else
            (case cap_pending s of
               [] \<Rightarrow> s\<lparr>producer := P_PutNone\<rparr>
             | None # rest \<Rightarrow> s\<lparr>cap_pending := rest, producer := P_PutNone\<rparr>
             | Some frame_data # rest \<Rightarrow>
                 if frame_number s mod frame_step s = 0
                 then s\<lparr>cap_pending := rest, decoded := decoded s @ [frame_data],
                        producer := P_Put (cvtColor_BGR2GRAY cfg frame_data)\<rparr>
                 else s\<lparr>cap_pending := rest, decoded := decoded s @ [frame_data],
                        frame_number := frame_number s + 1\<rparr>)
      | P_Put gray_frame \<Rightarrow>
          if queue_full s then s
          else s\<lparr>queue := queue s @ [Some gray_frame],
                 enqueued := enqueued s @ [Some gray_frame],
                 frame_number := frame_number s + 1, producer := P_Loop\<rparr>
      | P_PutNone \<Rightarrow>
          if queue_full s then s
          else s\<lparr>queue := queue s @ [None], enqueued := enqueued s @ [None],
                 producer := P_Release\<rparr>
      | P_Release \<Rightarrow> s\<lparr>cap_released := True, producer := P_Done\<rparr>
      | P_Done \<Rightarrow> s
      | P_Raised e \<Rightarrow> s)"

text \<open>
  One turn of \<open>_frame_consumer\<close>. A turn taken while \<open>get\<close> is suspended changes nothing.
  Every \<open>send_message\<close> hands one message with id \<open>ISB_MESSAGE_ID\<close> to the transport, which
  accepts it; the next one is issued only after it returned. The palette bytes and the
  palette image are read through the fields of the streamer; nothing is built.
\<close>

definition consumer_step :: "pipeline \<Rightarrow> pipeline" where
  "consumer_step s =
     (case consumer s of
        C_Loop \<Rightarrow> if running s then s\<lparr>consumer := C_Get\<rparr> else s\<lparr>consumer := C_Done\<rparr>
      | C_Get \<Rightarrow>
          (case queue s of
             [] \<Rightarrow> s
           | None # rest \<Rightarrow>
               s\<lparr>queue := rest, dequeued := dequeued s @ [None], running := False,
                  consumer := C_Done\<rparr>
           | Some gray_frame_data # rest \<Rightarrow>
               (case encode_frame (width s) (height s)
                       (bytes_at (objects s) (palette_bytes s))
                       (image_at (objects s) (palette_image s)) gray_frame_data of
                  Inl e \<Rightarrow>
                    s\<lparr>queue := rest, dequeued := dequeued s @ [Some gray_frame_data],
                       consumer := C_Raised e\<rparr>
                | Inr payloads \<Rightarrow>
                    s\<lparr>queue := rest, dequeued := dequeued s @ [Some gray_frame_data],
                       encoded := encoded s @ [gray_frame_data],
                       consumer := C_Send payloads\<rparr>))
      | C_Send [] \<Rightarrow> s\<lparr>sent_frames := sent_frames s + 1, consumer := C_Loop\<rparr>
      | C_Send (p # rest) \<Rightarrow>
          s\<lparr>sent := sent s @ [(ISB_MESSAGE_ID, p)], consumer := C_Send rest\<rparr>
      | C_Done \<Rightarrow> s
      | C_Raised e \<Rightarrow> s)"

text \<open>
  The event loop gives the turns to the two tasks in some order: a schedule. Every
  interleaving of the tasks is the run of some schedule.
\<close>

datatype task = Producer | Consumer

definition step :: "config \<Rightarrow> task \<Rightarrow> pipeline \<Rightarrow> pipeline" where
  "step cfg t s = (case t of Producer \<Rightarrow> producer_step cfg s | Consumer \<Rightarrow> consumer_step s)"

definition run :: "config \<Rightarrow> task list \<Rightarrow> pipeline \<Rightarrow> pipeline" where
  "run cfg sched s = foldl (\<lambda>s t. step cfg t s) s sched"

text \<open>
  Lines 134 to 153 of \<open>stream\<close> with the connection up: connected, the display app uploaded
  (\<open>force_upload\<close> is true; \<open>_upload_lua_app\<close> prints its line first) and started, the queue
  created with \<open>maxsize=4\<close>, \<open>running\<close> set; the two tasks are created next. The upload and
  the start of the app succeed once the connection is up.
\<close>

definition streaming_start :: "config \<Rightarrow> pipeline" where
  "streaming_start cfg = (new_FinalStreamer cfg)\<lparr>connected := True,
     console := [''Uploading sprite player app...''], maxsize := 4, queue := [],
     running := True\<rparr>"

text \<open>
  \<open>await asyncio.gather(producer, consumer)\<close> returns when both tasks have returned, and
  raises as soon as one task has raised. The schedule is the fuel: \<open>None\<close> says that \<open>gather\<close>
  has not finished within it; otherwise the state and the turns of the schedule not yet
  taken are returned.
\<close>

definition task_raised :: "pipeline \<Rightarrow> bool" where
  "task_raised s =
     ((case producer s of P_Raised e \<Rightarrow> True | _ \<Rightarrow> False) \<or>
      (case consumer s of C_Raised e \<Rightarrow> True | _ \<Rightarrow> False))"

definition gather_finished :: "pipeline \<Rightarrow> bool" where
  "gather_finished s = (task_raised s \<or> (producer s = P_Done \<and> consumer s = C_Done))"

fun gather :: "config \<Rightarrow> task list \<Rightarrow> pipeline \<Rightarrow> (pipeline \<times> task list) option" where
  "gather cfg [] s = (if gather_finished s then Some (s, []) else None)"
| "gather cfg (t # ts) s =
     (if gather_finished s then Some (s, t # ts) else gather cfg ts (step cfg t s))"

text \<open>
  The end of the session. When \<open>gather\<close> raised, the other task is still there: it takes its
  turns while \<open>stream\<close> awaits the disconnection, and when \<open>asyncio.run\<close> closes the loop a
  task that has not ended is cancelled: \<open>CancelledError\<close> is raised in it at the \<open>await\<close> where it
  is suspended, and nothing catches it. A task is suspended at a \<open>put\<close> on the full queue, at
  a \<open>get\<close> on the empty queue and at a \<open>send_message\<close>. A schedule that leaves a task that has
  not ended anywhere else is too short: \<open>None\<close>.
\<close>

definition producer_ended :: "pipeline \<Rightarrow> bool" where
  "producer_ended s = (case producer s of P_Done \<Rightarrow> True | P_Raised e \<Rightarrow> True | _ \<Rightarrow> False)"

definition consumer_ended :: "pipeline \<Rightarrow> bool" where
  "consumer_ended s = (case consumer s of C_Done \<Rightarrow> True | C_Raised e \<Rightarrow> True | _ \<Rightarrow> False)"

definition producer_suspended :: "pipeline \<Rightarrow> bool" where
  "producer_suspended s =
     (case producer s of P_Put g \<Rightarrow> queue_full s | P_PutNone \<Rightarrow> queue_full s | _ \<Rightarrow> False)"

definition consumer_suspended :: "pipeline \<Rightarrow> bool" where
  "consumer_suspended s =
     (case consumer s of C_Get \<Rightarrow> queue s = [] | C_Send (p # rest) \<Rightarrow> True | _ \<Rightarrow> False)"

definition cancel_suspended :: "pipeline \<Rightarrow> pipeline option" where
  "cancel_suspended s =
     (if (producer_ended s \<or> producer_suspended s) \<and> (consumer_ended s \<or> consumer_suspended s)
      then Some (s\<lparr>producer := (if producer_ended s then producer s
                                   else P_Raised CancelledError),
                    consumer := (if consumer_ended s then consumer s
                                   else C_Raised CancelledError)\<rparr>)
      else None)"

text \<open>
  \<open>stream\<close>: an exception of \<open>connect\<close> or of a task is caught and printed; the transport is
  disconnected if it is connected. \<open>stream\<close> itself never raises. With the connection down
  no task is created. The end of the session is folded into the last step.
\<close>

definition stream :: "config \<Rightarrow> task list \<Rightarrow> pipeline option" where
  "stream cfg sched =
     (let s0 = new_FinalStreamer cfg in
      if \<not> link_up cfg then Some (s0\<lparr>console := console s0 @ [''An error occurred'']\<rparr>)
      else
        (case gather cfg sched (streaming_start cfg) of
           None \<Rightarrow> None
         | Some (s, rest) \<Rightarrow>
             let s' = (if task_raised s then s\<lparr>console := console s @ [''An error occurred'']\<rparr>
                       else s)
             in cancel_suspended
                  (run cfg rest
                     (s'\<lparr>console := console s' @ [''Disconnecting...''], connected := False\<rparr>))))"

text \<open>
  \<open>main\<close>: a path that is no regular file ends the process with \<open>sys.exit(1)\<close>, after the
  error line and the usage text of \<open>print_help\<close>, before a streamer exists; otherwise the
  streamer is built, \<open>stream\<close> is awaited and \<open>main\<close> returns, which ends the process with
  status 0.
\<close>

datatype outcome = Exited "string list" int | Returned pipeline

definition main :: "config \<Rightarrow> task list \<Rightarrow> outcome option" where
  "main cfg sched =
     (if \<not> is_file (video cfg) then Some (Exited [''Error: Video file not found'', ''usage''] 1)
      else map_option Returned (stream cfg sched))"

text \<open>The state with which \<open>main\<close> returned, if it did.\<close>

fun returned :: "outcome option \<Rightarrow> pipeline option" where
  "returned (Some (Returned s)) = Some s"
| "returned _ = None"

fun exit_status :: "outcome \<Rightarrow> int" where
  "exit_status (Exited out n) = n"
| "exit_status (Returned s) = 0"

section \<open>Invariants and an example run\<close>

text \<open>The fields that no turn of either task writes.\<close>

definition fixed_fields :: "config \<Rightarrow> pipeline \<Rightarrow> bool" where
  "fixed_fields cfg s =
     (width s = arg_width cfg \<and> height s = arg_height cfg \<and> fps_limit s = arg_fps cfg \<and>
      objects s = [Bytes_object init_palette_bytes, Image_object init_palette_image] \<and>
      palette_bytes s = 0 \<and> palette_image s = 1 \<and> maxsize s = 4)"

text \<open>
  A session to evaluate: four frames of one row, 30 frames per second, a target of 14 and a
  sprite of 2 by 2; the grayscale conversion of the example takes the green channel.
\<close>

definition example_config :: config where
  "example_config =
     \<lparr>video = \<lparr>is_file = True, openable = True, native_fps = 30,
                reads = [Some [[(0, 0, 0), (255, 255, 255)]], Some [[(9, 9, 9), (9, 9, 9)]],
                         Some [[(255, 255, 255), (0, 0, 0)]], Some [[(7, 7, 7), (7, 7, 7)]]]\<rparr>,
      arg_width = 2, arg_height = 2, arg_fps = 14,
      cvtColor_BGR2GRAY = map (map (\<lambda>(b, g, r). g)),
      link_up = True\<rparr>"

text \<open>
  The frames the producer holds: those on the queue and the one it has decoded and is about
  to put.
\<close>

definition in_flight :: "pipeline \<Rightarrow> nat" where
  "in_flight s = length (queue s) + (case producer s of P_Put g \<Rightarrow> 1 | _ \<Rightarrow> 0)"

definition queue_inv :: "pipeline \<Rightarrow> bool" where
  "queue_inv s = (maxsize s = 4 \<and> length (queue s) \<le> 4 \<and> enqueued s = dequeued s @ queue s)"

text \<open>A video of nine frames of one sample each, otherwise the example session.\<close>

definition long_video_config :: config where
  "long_video_config =
     example_config\<lparr>video := (video example_config)\<lparr>reads :=
       map (\<lambda>v. Some [[(v, v, v)]]) [0, 1, 2, 3, 4, 5, 6, 7, 8]\<rparr>\<rparr>"

text \<open>The payloads of the frame in hand that the consumer has still to send.\<close>

fun pending :: "cpc \<Rightarrow> payload list" where
  "pending (C_Send ps) = ps"
| "pending _ = []"

text \<open>
  The messages of one frame, as lines 107 to 122 produce them from the fields that
  \<open>__init__\<close> set.
\<close>

definition frame_messages :: "config \<Rightarrow> gray_frame \<Rightarrow> message list" where
  "frame_messages cfg g =
     (case encode_frame (arg_width cfg) (arg_height cfg) init_palette_bytes init_palette_image g of
        Inl e \<Rightarrow> []
      | Inr ps \<Rightarrow> map (Pair ISB_MESSAGE_ID) ps)"

text \<open>
  The packet sequence of one frame: one header packet, then the line packets of its block in
  the order of their indices \<open>0, 1, ...\<close> without a gap, as many as the sprite height
  divided by the line height, every one with message id \<open>ISB_MESSAGE_ID\<close>.
\<close>

fun is_frame_packets :: "message list \<Rightarrow> bool" where
  "is_frame_packets ((i, Packed_block isb) # rest) =
     (i = ISB_MESSAGE_ID \<and>
      rest = map (\<lambda>l. (ISB_MESSAGE_ID, Packed_line l)) (sprite_lines isb) \<and>
      map line_index (sprite_lines isb) = [0..<length (sprite_lines isb)] \<and>
      length (sprite_lines isb) = nat (sprite_height (isb_image isb) div sprite_line_height isb))"
| "is_frame_packets _ = False"

definition sent_inv :: "config \<Rightarrow> pipeline \<Rightarrow> bool" where
  "sent_inv cfg s =
     (sent s @ map (Pair ISB_MESSAGE_ID) (pending (consumer s)) =
        concat (map (frame_messages cfg) (encoded s)) \<and>
      (\<forall>g \<in> set (encoded s). \<exists>ps. encode_frame (arg_width cfg) (arg_height cfg)
          init_palette_bytes init_palette_image g = Inr ps))"

text \<open>A schedule that runs the example session to its end: the producer first.\<close>

definition example_schedule :: "task list" where
  "example_schedule = replicate 10 Producer @ replicate 12 Consumer"


text \<open>
  What the producer has put on the queue when it has dealt with the decoded frames \<open>fs\<close>:
  the grayscale conversions of those whose index is a multiple of the stride.
\<close>

definition selected :: "config \<Rightarrow> pipeline \<Rightarrow> bgr_frame list \<Rightarrow> item list" where
  "selected cfg s fs = map (\<lambda>f. Some (cvtColor_BGR2GRAY cfg f)) (every_nth (frame_step s) fs)"

text \<open>The producer between opening the capture and releasing it.\<close>

definition reading :: "config \<Rightarrow> pipeline \<Rightarrow> bool" where
  "reading cfg s =
     (openable (video cfg) \<and> arg_fps cfg \<noteq> 0 \<and> \<not> float_of_int_overflows (arg_fps cfg) \<and>
      cap_opened s \<and> \<not> cap_released s \<and>
      frame_step s = max 1 (py_round (source_fps_or_30 (native_fps (video cfg)) /
                                        of_int (arg_fps cfg))) \<and>
      take (length (decoded s)) (reads (video cfg)) = map Some (decoded s))"

definition producer_inv :: "config \<Rightarrow> pipeline \<Rightarrow> bool" where
  "producer_inv cfg s =
     (case producer s of
        P_Start \<Rightarrow> enqueued s = [] \<and> decoded s = [] \<and> \<not> cap_opened s \<and> \<not> cap_released s
      | P_Loop \<Rightarrow> reading cfg s \<and> frame_number s = int (length (decoded s)) \<and>
          reads (video cfg) = map Some (decoded s) @ cap_pending s \<and>
          enqueued s = selected cfg s (decoded s)
      | P_Put g \<Rightarrow> reading cfg s \<and> decoded s \<noteq> [] \<and>
          frame_number s = int (length (decoded s)) - 1 \<and>
          frame_number s mod frame_step s = 0 \<and>
          reads (video cfg) = map Some (decoded s) @ cap_pending s \<and>
          g = cvtColor_BGR2GRAY cfg (last (decoded s)) \<and>
          enqueued s = selected cfg s (butlast (decoded s))
      | P_PutNone \<Rightarrow> reading cfg s \<and> frame_number s = int (length (decoded s)) \<and>
          enqueued s = selected cfg s (decoded s)
      | P_Release \<Rightarrow> reading cfg s \<and> frame_number s = int (length (decoded s)) \<and>
          enqueued s = selected cfg s (decoded s) @ [None]
      | P_Done \<Rightarrow>
          if cap_opened s
          then reading cfg (s\<lparr>cap_released := False\<rparr>) \<and> cap_released s \<and>
            frame_number s = int (length (decoded s)) \<and>
            enqueued s = selected cfg s (decoded s) @ [None]
          else \<not> openable (video cfg) \<and> \<not> cap_released s \<and> enqueued s = [] \<and> decoded s = []
      | P_Raised e \<Rightarrow>
          (e = ZeroDivisionError \<and> arg_fps cfg = 0 \<or>
           e = OverflowError \<and> float_of_int_overflows (arg_fps cfg)) \<and> openable (video cfg) \<and>
          cap_opened s \<and> \<not> cap_released s \<and> enqueued s = [] \<and> decoded s = [])"

text \<open>
  The long video with a sprite width of 0, for which the resize of the first frame raises,
  and a schedule: the producer fills the queue, the consumer takes the first frame and
  raises, the producer puts its frame in hand and leaves its loop.
\<close>

definition stalled_config :: config where
  "stalled_config = long_video_config\<lparr>arg_width := 0\<rparr>"

definition stalled_schedule :: "task list" where
  "stalled_schedule = replicate 14 Producer @ [Consumer, Consumer, Producer, Producer]"


text \<open>The example session with a target rate of 0.\<close>

definition zero_fps_config :: config where
  "zero_fps_config = example_config\<lparr>arg_fps := 0\<rparr>"

text \<open>The example session with a file that exists and is no video.\<close>

definition unopenable_config :: config where
  "unopenable_config = example_config\<lparr>video := (video example_config)\<lparr>openable := False\<rparr>\<rparr>"

text \<open>Every frame the consumer encoded is one it took from the queue.\<close>

definition encoded_inv :: "pipeline \<Rightarrow> bool" where
  "encoded_inv s = (set (map Some (encoded s)) \<subseteq> set (dequeued s))"

text \<open>The invariants of a session together.\<close>

definition session_inv :: "config \<Rightarrow> pipeline \<Rightarrow> bool" where
  "session_inv cfg s =
     (fixed_fields cfg s \<and> queue_inv s \<and> sent_inv cfg s \<and> producer_inv cfg s \<and> encoded_inv s)"

section \<open>Properties of quantization\<close>

lemma init_palette_bytes_eq:
  "init_palette_bytes = [0, 0, 0, 85, 85, 85, 170, 170, 170, 255, 255, 255]"
  by (simp add: init_palette_bytes_def astype_uint8_tobytes_def FIXED_PALETTE_4_COLORS_def)

lemma init_palette_image_eq:
  "init_palette_image = [(0, 0, 0), (85, 85, 85), (170, 170, 170), (255, 255, 255)]"
  by (simp add: init_palette_image_def init_palette_bytes_eq)

lemma argmin_from_bound:
  "best < i \<Longrightarrow> argmin_from i best bv ds < i + length ds"
proof (induction ds arbitrary: i best bv)
  case Nil
  then show ?case by simp
next
  case (Cons d ds)
  have "argmin_from (Suc i) i d ds < Suc i + length ds"
    by (rule Cons.IH) simp
  moreover have "argmin_from (Suc i) best bv ds < Suc i + length ds"
    by (rule Cons.IH) (use Cons.prems in simp)
  ultimately show ?case by simp
qed

lemma nearest_index_bound:
  "pal \<noteq> [] \<Longrightarrow> nearest_index pal c < length pal"
proof -
  assume "pal \<noteq> []"
  then obtain p ps where pal: "pal = p # ps" by (cases pal) auto
  have "argmin_from 1 0 (rgb_distance c p) (map (rgb_distance c) ps) < 1 + length ps"
    using argmin_from_bound [of 0 1 "rgb_distance c p" "map (rgb_distance c) ps"] by simp
  then show ?thesis by (simp add: nearest_index_def pal)
qed

lemma nearest_index_self:
  "k < 4 \<Longrightarrow> nearest_index init_palette_image (init_palette_image ! k) = k"
proof -
  assume "k < 4"
  then consider "k = 0" | "k = 1" | "k = 2" | "k = 3" by linarith
  then show ?thesis
    by cases (simp_all add: nearest_index_def rgb_distance_def init_palette_image_eq)
qed

lemma nearest_index_lt4: "nearest_index init_palette_image c < 4"
  using nearest_index_bound [of init_palette_image c] by (simp add: init_palette_image_eq)

lemma unat_index:
  "unat (of_nat (nearest_index init_palette_image c) :: byte) = nearest_index init_palette_image c"
  using nearest_index_lt4 [of c] by (simp add: unat_of_nat)

lemma palette_entry_level:
  "k < 4 \<Longrightarrow>
   init_palette_image ! k \<in> {(0, 0, 0), (85, 85, 85), (170, 170, 170), (255, 255, 255)}"
proof -
  assume "k < 4"
  then consider "k = 0" | "k = 1" | "k = 2" | "k = 3" by linarith
  then show ?thesis by cases (simp_all add: init_palette_image_eq)
qed

lemma requantize_pixel:
  "of_nat (nearest_index init_palette_image
       (init_palette_image ! unat (of_nat (nearest_index init_palette_image c) :: byte))) =
   (of_nat (nearest_index init_palette_image c) :: byte)"
  by (simp add: unat_index nearest_index_self nearest_index_lt4)

text \<open>
  Claim C3. For every grayscale frame, each index that quantization against the palette
  image of \<open>__init__\<close> produces is between 0 and 3 and denotes one of the four gray levels
  (0, 85, 170, 255) of the palette; and quantization is idempotent: the quantized image,
  mapped back through the palette and quantized again, has the same indices.
\<close>

theorem quantize_indices_and_idempotent:
  "(\<forall>i \<in> set (concat (quantize_gray init_palette_image img)).
      unat i \<le> 3 \<and>
      init_palette_image ! unat i \<in>
        {(0, 0, 0), (85, 85, 85), (170, 170, 170), (255, 255, 255)}) \<and>
   quantize init_palette_image
       (palette_lookup init_palette_image (quantize_gray init_palette_image img)) =
     quantize_gray init_palette_image img"
proof (intro conjI ballI)
  fix i assume "i \<in> set (concat (quantize_gray init_palette_image img))"
  then obtain c where i: "i = of_nat (nearest_index init_palette_image c)"
    by (auto simp: quantize_gray_def quantize_def)
  have lt: "unat i < 4" using nearest_index_lt4 [of c] by (simp add: i unat_index)
  then show "unat i \<le> 3" by simp
  show "init_palette_image ! unat i \<in>
      {(0, 0, 0), (85, 85, 85), (170, 170, 170), (255, 255, 255)}"
    using lt by (rule palette_entry_level)
next
  show "quantize init_palette_image
          (palette_lookup init_palette_image (quantize_gray init_palette_image img)) =
        quantize_gray init_palette_image img"
    by (simp add: quantize_gray_def quantize_def palette_lookup_def o_def requantize_pixel)
qed

theorem quantize_indices_and_idempotent_witness:
  "quantize_gray init_palette_image [[0, 42, 43], [127, 128, 255]] = [[0, 0, 1], [1, 2, 3]] \<and>
   quantize init_palette_image (palette_lookup init_palette_image [[0, 0, 1], [1, 2, 3]]) =
     [[0, 0, 1], [1, 2, 3]]"
proof -
  have q: "quantize_gray init_palette_image [[0, 42, 43], [127, 128, 255]] =
      [[0, 0, 1], [1, 2, 3]]"
    by (simp add: quantize_gray_def quantize_def convert_RGB_def nearest_index_def
          rgb_distance_def init_palette_image_eq)
  show ?thesis
    using quantize_indices_and_idempotent [of "[[0, 42, 43], [127, 128, 255]]"]
    by (simp add: q)
qed

section \<open>Runs and the fields no task writes\<close>

lemma run_Nil [simp]: "run cfg [] s = s"
  by (simp add: run_def)

lemma run_snoc: "run cfg (sched @ [t]) s = step cfg t (run cfg sched s)"
  by (simp add: run_def)

lemma run_append: "run cfg (xs @ ys) s = run cfg ys (run cfg xs s)"
  by (simp add: run_def)

lemma run_invariant:
  assumes "P s0" and "\<And>s t. P s \<Longrightarrow> P (step cfg t s)"
  shows "P (run cfg sched s0)"
  by (induction sched rule: rev_induct) (simp_all add: assms run_snoc)

lemma fixed_fields_start: "fixed_fields cfg (streaming_start cfg)"
  by (simp add: fixed_fields_def streaming_start_def new_FinalStreamer_def
        init_palette_bytes_def init_palette_image_def)

lemma fixed_fields_producer_step:
  "fixed_fields cfg s \<Longrightarrow> fixed_fields cfg (producer_step cfg s)"
  by (simp add: fixed_fields_def producer_step_def split: ppc.splits list.splits option.splits sum.splits)

lemma fixed_fields_consumer_step:
  "fixed_fields cfg s \<Longrightarrow> fixed_fields cfg (consumer_step s)"
  by (simp add: fixed_fields_def consumer_step_def split: cpc.splits list.splits option.splits sum.splits)

lemma fixed_fields_palette:
  assumes "fixed_fields cfg s"
  shows "bytes_at (objects s) (palette_bytes s) = init_palette_bytes"
    and "image_at (objects s) (palette_image s) = init_palette_image"
  using assms by (simp_all add: fixed_fields_def bytes_at_def image_at_def)

lemma fixed_fields_step: "fixed_fields cfg s \<Longrightarrow> fixed_fields cfg (step cfg t s)"
  by (cases t) (simp_all add: step_def fixed_fields_producer_step fixed_fields_consumer_step)


section \<open>Properties of the encoding\<close>

lemma length_concat_uniform:
  "(\<forall>row \<in> set rows. length row = n) \<Longrightarrow> length (concat rows) = length rows * n"
  by (induction rows) simp_all

lemma resize_NEAREST_Inr:
  assumes "resize_NEAREST img w h = Inr r"
  shows "1 \<le> w" and "1 \<le> h" and "length r = nat h" and "\<forall>row \<in> set r. length row = nat w"
  using assms
  by (auto simp: resize_NEAREST_def split: if_splits list.splits)


lemma quantize_shape:
  "length (quantize pal img) = length img"
  "\<forall>row \<in> set img. length row = n \<Longrightarrow> \<forall>row \<in> set (quantize pal img). length row = n"
  by (auto simp: quantize_def)

lemma convert_RGB_shape:
  "length (convert_RGB img) = length img"
  "\<forall>row \<in> set img. length row = n \<Longrightarrow> \<forall>row \<in> set (convert_RGB img). length row = n"
  by (auto simp: convert_RGB_def)

lemma frame_pixel_data_Inr:
  assumes "frame_pixel_data w h pal g = Inr px"
  shows "1 \<le> w" and "1 \<le> h" and "int (length px) = w * h"
proof -
  from assms obtain r where r: "resize_NEAREST g w h = Inr r"
    and px: "px = tobytes (quantize pal (convert_RGB r))"
    by (auto simp: frame_pixel_data_def split: sum.splits)
  show "1 \<le> w" "1 \<le> h" using resize_NEAREST_Inr [OF r] by simp_all
  have "\<forall>row \<in> set (quantize pal (convert_RGB r)). length row = nat w"
    using resize_NEAREST_Inr(4) [OF r] by (simp add: quantize_def convert_RGB_def)
  then have "length px = nat h * nat w"
    using length_concat_uniform [of "quantize pal (convert_RGB r)" "nat w"]
      resize_NEAREST_Inr(3) [OF r]
    by (simp add: px tobytes_def quantize_shape(1) convert_RGB_shape(1))
  then show "int (length px) = w * h"
    using \<open>1 \<le> w\<close> \<open>1 \<le> h\<close> by (simp add: mult.commute)
qed



lemma split_indices:
  "map line_index (split_into_lines sprite lh) = [0..<nat (sprite_height sprite div lh)]"
  by (simp add: split_into_lines_def Let_def o_def map_idI)

lemma sprite_payloads_eq:
  "h \<noteq> 0 \<Longrightarrow> int (length px) = w * h \<Longrightarrow>
   sprite_payloads w h pb px =
     (let sprite = \<lparr>sprite_width = w, sprite_height = h, num_colors = 4,
                     palette_data = pb, pixel_data = px, compress = False\<rparr>;
          isb = \<lparr>isb_image = sprite, sprite_line_height = h, progressive_render = False,
                 sprite_lines = split_into_lines sprite h\<rparr>
      in Inr (Packed_block isb # map Packed_line (sprite_lines isb)))"
  by (simp add: sprite_payloads_def new_TxImageSpriteBlock_def Let_def)



lemma frame_pixel_data_Inl:
  "frame_pixel_data w h pal g = Inl e \<Longrightarrow> e = ValueError"
  by (auto simp: frame_pixel_data_def resize_NEAREST_def split: sum.splits if_splits list.splits)




section \<open>The bounded queue\<close>

lemma queue_inv_start: "queue_inv (streaming_start cfg)"
  by (simp add: queue_inv_def streaming_start_def new_FinalStreamer_def)

lemma queue_inv_producer_step: "queue_inv s \<Longrightarrow> queue_inv (producer_step cfg s)"
  by (auto simp: queue_inv_def producer_step_def queue_full_def
      split: ppc.splits list.splits option.splits sum.splits)

lemma queue_inv_consumer_step: "queue_inv s \<Longrightarrow> queue_inv (consumer_step s)"
  by (auto simp: queue_inv_def consumer_step_def
      split: cpc.splits list.splits option.splits sum.splits)

lemma queue_inv_run: "queue_inv (run cfg sched (streaming_start cfg))"
proof (rule run_invariant)
  show "queue_inv (streaming_start cfg)" by (rule queue_inv_start)
next
  fix s t assume "queue_inv s"
  then show "queue_inv (step cfg t s)"
    by (cases t) (simp_all add: step_def queue_inv_producer_step queue_inv_consumer_step)
qed

lemma put_suspended:
  "producer s = P_Put g \<Longrightarrow> maxsize s = 4 \<Longrightarrow> length (queue s) = 4 \<Longrightarrow>
   step cfg Producer s = s"
  by (simp add: step_def producer_step_def queue_full_def)

lemma put_resumes:
  "producer s = P_Put g \<Longrightarrow> maxsize s = 4 \<Longrightarrow> length (queue s) = 4 \<Longrightarrow>
   consumer s = C_Get \<Longrightarrow>
   queue (step cfg Producer (step cfg Consumer s)) = tl (queue s) @ [Some g]"
  by (cases "queue s")
     (auto simp: step_def producer_step_def consumer_step_def queue_full_def
       split: option.splits sum.splits)

text \<open>
  Claim C9. In every state of every interleaving of the two tasks the queue has capacity 4
  and holds at most 4 items, in the order they were put (what was put is what was taken
  followed by what is queued), and the producer holds at most 5 frames: those queued and
  the one it is about to put. A producer about to put a frame on the full queue is
  suspended: its turn changes nothing; once the consumer, waiting at \<open>get\<close>, has taken one
  item, the producer's turn puts the frame at the end of the queue.
\<close>

theorem queue_is_bounded_fifo:
  "maxsize (run cfg sched (streaming_start cfg)) = 4 \<and>
   length (queue (run cfg sched (streaming_start cfg))) \<le> 4 \<and>
   in_flight (run cfg sched (streaming_start cfg)) \<le> 4 + 1 \<and>
   enqueued (run cfg sched (streaming_start cfg)) =
     dequeued (run cfg sched (streaming_start cfg)) @ queue (run cfg sched (streaming_start cfg)) \<and>
   (\<forall>g. producer (run cfg sched (streaming_start cfg)) = P_Put g \<and>
        length (queue (run cfg sched (streaming_start cfg))) = 4 \<longrightarrow>
      step cfg Producer (run cfg sched (streaming_start cfg)) = run cfg sched (streaming_start cfg) \<and>
      (consumer (run cfg sched (streaming_start cfg)) = C_Get \<longrightarrow>
         queue (step cfg Producer (step cfg Consumer (run cfg sched (streaming_start cfg)))) =
           tl (queue (run cfg sched (streaming_start cfg))) @ [Some g]))"
proof -
  let ?s = "run cfg sched (streaming_start cfg)"
  have inv: "maxsize ?s = 4" "length (queue ?s) \<le> 4" "enqueued ?s = dequeued ?s @ queue ?s"
    using queue_inv_run [of cfg sched] by (simp_all add: queue_inv_def)
  have fl: "in_flight ?s \<le> 4 + 1"
    using inv(2) by (simp add: in_flight_def split: ppc.splits)
  have susp: "\<forall>g. producer ?s = P_Put g \<and> length (queue ?s) = 4 \<longrightarrow>
      step cfg Producer ?s = ?s \<and>
      (consumer ?s = C_Get \<longrightarrow>
         queue (step cfg Producer (step cfg Consumer ?s)) = tl (queue ?s) @ [Some g])"
    using put_suspended [of ?s _ cfg] put_resumes [of ?s _ cfg] inv(1) by blast
  from inv fl susp show ?thesis by blast
qed

theorem queue_is_bounded_fifo_witness:
  "producer (run long_video_config
      [Producer, Producer, Producer, Producer, Producer, Producer, Producer, Producer,
       Producer, Producer, Producer, Producer, Producer, Producer, Consumer]
      (streaming_start long_video_config)) = P_Put [[8]] \<and>
   queue (run long_video_config
      [Producer, Producer, Producer, Producer, Producer, Producer, Producer, Producer,
       Producer, Producer, Producer, Producer, Producer, Producer, Consumer]
      (streaming_start long_video_config)) = [Some [[0]], Some [[2]], Some [[4]], Some [[6]]] \<and>
   consumer (run long_video_config
      [Producer, Producer, Producer, Producer, Producer, Producer, Producer, Producer,
       Producer, Producer, Producer, Producer, Producer, Producer, Consumer]
      (streaming_start long_video_config)) = C_Get \<and>
   step long_video_config Producer (run long_video_config
      [Producer, Producer, Producer, Producer, Producer, Producer, Producer, Producer,
       Producer, Producer, Producer, Producer, Producer, Producer, Consumer]
      (streaming_start long_video_config)) =
     run long_video_config
      [Producer, Producer, Producer, Producer, Producer, Producer, Producer, Producer,
       Producer, Producer, Producer, Producer, Producer, Producer, Consumer]
      (streaming_start long_video_config) \<and>
   queue (step long_video_config Producer (step long_video_config Consumer (run long_video_config
      [Producer, Producer, Producer, Producer, Producer, Producer, Producer, Producer,
       Producer, Producer, Producer, Producer, Producer, Producer, Consumer]
      (streaming_start long_video_config)))) = [Some [[2]], Some [[4]], Some [[6]], Some [[8]]]"
proof -
  let ?s = "run long_video_config
      [Producer, Producer, Producer, Producer, Producer, Producer, Producer, Producer,
       Producer, Producer, Producer, Producer, Producer, Producer, Consumer]
      (streaming_start long_video_config)"
  have p: "producer ?s = P_Put [[8]]" by code_simp
  have q: "queue ?s = [Some [[0]], Some [[2]], Some [[4]], Some [[6]]]" by code_simp
  have c: "consumer ?s = C_Get" by code_simp
  show ?thesis
    using queue_is_bounded_fifo [of long_video_config
        "[Producer, Producer, Producer, Producer, Producer, Producer, Producer, Producer,
          Producer, Producer, Producer, Producer, Producer, Producer, Consumer]"]
      p q c by simp
qed

section \<open>What the transport is handed\<close>

lemma encode_frame_Inr:
  assumes "encode_frame w h pb pal g = Inr ps"
  shows "\<exists>px. frame_pixel_data w h pal g = Inr px \<and> 1 \<le> h \<and>
     ps = Packed_block \<lparr>isb_image = \<lparr>sprite_width = w, sprite_height = h, num_colors = 4,
                palette_data = pb, pixel_data = px, compress = False\<rparr>,
              sprite_line_height = h, progressive_render = False,
              sprite_lines = split_into_lines \<lparr>sprite_width = w, sprite_height = h,
                num_colors = 4, palette_data = pb, pixel_data = px, compress = False\<rparr> h\<rparr> #
          map Packed_line (split_into_lines \<lparr>sprite_width = w, sprite_height = h,
                num_colors = 4, palette_data = pb, pixel_data = px, compress = False\<rparr> h)"
proof -
  from assms obtain px where px: "frame_pixel_data w h pal g = Inr px"
    and ps: "sprite_payloads w h pb px = Inr ps"
    by (auto simp: encode_frame_def split: sum.splits)
  have h: "1 \<le> h" using frame_pixel_data_Inr(2) [OF px] .
  then have "h \<noteq> 0" by simp
  moreover have "int (length px) = w * h" using frame_pixel_data_Inr(3) [OF px] .
  ultimately show ?thesis using ps px h by (simp add: sprite_payloads_eq Let_def)
qed

lemma split_length:
  "length (split_into_lines sprite lh) = nat (sprite_height sprite div lh)"
  by (simp add: split_into_lines_def Let_def)

lemma encode_frame_is_frame_packets:
  assumes "encode_frame w h pb pal g = Inr ps"
  shows "is_frame_packets (map (Pair ISB_MESSAGE_ID) ps)"
proof -
  from encode_frame_Inr [OF assms] obtain px where
    "ps = Packed_block \<lparr>isb_image = \<lparr>sprite_width = w, sprite_height = h, num_colors = 4,
                palette_data = pb, pixel_data = px, compress = False\<rparr>,
              sprite_line_height = h, progressive_render = False,
              sprite_lines = split_into_lines \<lparr>sprite_width = w, sprite_height = h,
                num_colors = 4, palette_data = pb, pixel_data = px, compress = False\<rparr> h\<rparr> #
          map Packed_line (split_into_lines \<lparr>sprite_width = w, sprite_height = h,
                num_colors = 4, palette_data = pb, pixel_data = px, compress = False\<rparr> h)"
    by blast
  then show ?thesis by (simp add: o_def split_indices split_length)
qed

lemma sent_inv_start: "sent_inv cfg (streaming_start cfg)"
  by (simp add: sent_inv_def streaming_start_def new_FinalStreamer_def)

lemma sent_inv_producer_step: "sent_inv cfg s \<Longrightarrow> sent_inv cfg (producer_step cfg s)"
  by (simp add: sent_inv_def producer_step_def
      split: ppc.splits list.splits option.splits sum.splits)

lemma sent_inv_consumer_step:
  assumes "fixed_fields cfg s" and "sent_inv cfg s"
  shows "sent_inv cfg (consumer_step s)"
proof (cases "consumer s")
  case C_Loop
  with assms(2) show ?thesis by (simp add: sent_inv_def consumer_step_def)
next
  case C_Get
  show ?thesis
  proof (cases "queue s")
    case Nil
    with C_Get assms(2) show ?thesis by (simp add: sent_inv_def consumer_step_def)
  next
    case (Cons item rest)
    show ?thesis
    proof (cases item)
      case None
      with C_Get Cons assms(2) show ?thesis by (simp add: sent_inv_def consumer_step_def)
    next
      case (Some g)
      have ff: "width s = arg_width cfg" "height s = arg_height cfg"
        "bytes_at (objects s) (palette_bytes s) = init_palette_bytes"
        "image_at (objects s) (palette_image s) = init_palette_image"
        using assms(1) fixed_fields_palette [OF assms(1)] by (simp_all add: fixed_fields_def)
      show ?thesis
      proof (cases "encode_frame (arg_width cfg) (arg_height cfg) init_palette_bytes
                      init_palette_image g")
        case (Inl e)
        with C_Get Cons Some assms(2) ff show ?thesis
          by (simp add: sent_inv_def consumer_step_def)
      next
        case (Inr ps)
        with C_Get Cons Some assms(2) ff show ?thesis
          by (simp add: sent_inv_def consumer_step_def frame_messages_def)
      qed
    qed
  qed
next
  case (C_Send ps)
  with assms(2) show ?thesis
    by (cases ps) (simp_all add: sent_inv_def consumer_step_def)
next
  case C_Done
  with assms(2) show ?thesis by (simp add: sent_inv_def consumer_step_def)
next
  case (C_Raised e)
  with assms(2) show ?thesis by (simp add: sent_inv_def consumer_step_def)
qed

lemma sent_inv_run: "sent_inv cfg (run cfg sched (streaming_start cfg))"
proof -
  have "fixed_fields cfg (run cfg sched (streaming_start cfg)) \<and>
        sent_inv cfg (run cfg sched (streaming_start cfg))"
  proof (rule run_invariant)
    show "fixed_fields cfg (streaming_start cfg) \<and> sent_inv cfg (streaming_start cfg)"
      by (simp add: fixed_fields_start sent_inv_start)
  next
    fix s t assume "fixed_fields cfg s \<and> sent_inv cfg s"
    then show "fixed_fields cfg (step cfg t s) \<and> sent_inv cfg (step cfg t s)"
      using fixed_fields_step [of cfg s t]
      by (cases t) (simp_all add: step_def sent_inv_producer_step sent_inv_consumer_step)
  qed
  then show ?thesis by simp
qed

lemma frame_messages_ok:
  "\<exists>ps. encode_frame (arg_width cfg) (arg_height cfg) init_palette_bytes init_palette_image g = Inr ps
   \<Longrightarrow> is_frame_packets (frame_messages cfg g)"
  by (auto simp: frame_messages_def encode_frame_is_frame_packets)

text \<open>
  Claim C1. In every state of every interleaving, what the transport has been handed,
  followed by what the consumer has still to send of the frame in hand, is the
  concatenation, frame after frame in the order the consumer encoded them, of the packet
  sequences of the frames; and the packet sequence of every encoded frame is one header
  packet followed by the line packets of its block with the indices \<open>0, 1, ...\<close> in
  increasing order without a gap, each packet with message id \<open>0x20\<close>. So no packet of a
  later frame precedes a packet of an earlier one.
\<close>

theorem transport_receives_header_then_lines:
  "ISB_MESSAGE_ID = 0x20 \<and>
   sent (run cfg sched (streaming_start cfg)) @
     map (Pair ISB_MESSAGE_ID) (pending (consumer (run cfg sched (streaming_start cfg)))) =
     concat (map (frame_messages cfg) (encoded (run cfg sched (streaming_start cfg)))) \<and>
   (\<forall>g \<in> set (encoded (run cfg sched (streaming_start cfg))).
      is_frame_packets (frame_messages cfg g))"
  using sent_inv_run [of cfg sched]
  by (simp add: sent_inv_def ISB_MESSAGE_ID_def frame_messages_ok)

theorem transport_receives_header_then_lines_witness:
  "encoded (run example_config example_schedule (streaming_start example_config)) =
     [[[0, 255]], [[255, 0]]] \<and>
   consumer (run example_config example_schedule (streaming_start example_config)) = C_Done \<and>
   sent (run example_config example_schedule (streaming_start example_config)) =
     frame_messages example_config [[0, 255]] @ frame_messages example_config [[255, 0]] \<and>
   is_frame_packets (frame_messages example_config [[0, 255]]) \<and>
   is_frame_packets (frame_messages example_config [[255, 0]]) \<and>
   length (sent (run example_config example_schedule (streaming_start example_config))) = 4"
proof -
  let ?s = "run example_config example_schedule (streaming_start example_config)"
  have e: "encoded ?s = [[[0, 255]], [[255, 0]]]" by code_simp
  have c: "consumer ?s = C_Done" by code_simp
  have n: "length (sent ?s) = 4" by code_simp
  show ?thesis
    using transport_receives_header_then_lines [of example_config example_schedule] e c n
    by simp
qed

section \<open>The palette\<close>






section \<open>The producer\<close>

lemma every_nth_Nil [simp]: "every_nth k [] = []"
  by (simp add: every_nth_def)

lemma every_nth_snoc:
  "every_nth k (xs @ [x]) =
     every_nth k xs @ (if int (length xs) mod k = 0 then [x] else [])"
  by (simp add: every_nth_def enumerate_append_eq)




lemma selected_snoc:
  "selected cfg s (fs @ [f]) =
     selected cfg s fs @
       (if int (length fs) mod frame_step s = 0 then [Some (cvtColor_BGR2GRAY cfg f)] else [])"
  by (simp add: selected_def every_nth_snoc)

lemma selected_cong:
  "frame_step s' = frame_step s \<Longrightarrow> selected cfg s' fs = selected cfg s fs"
  by (simp add: selected_def)

lemma take_reads_snoc:
  assumes "reads v = map Some ds @ Some f # rest"
  shows "take (Suc (length ds)) (reads v) = map Some ds @ [Some f]"
  using assms by simp

lemma producer_inv_start: "producer_inv cfg (streaming_start cfg)"
  by (simp add: producer_inv_def streaming_start_def new_FinalStreamer_def)

lemma producer_inv_consumer_step:
  "producer_inv cfg s \<Longrightarrow> producer_inv cfg (consumer_step s)"
  by (auto simp: producer_inv_def consumer_step_def reading_def selected_def
      split: cpc.splits list.splits option.splits sum.splits ppc.splits if_splits)


lemma producer_inv_Put:
  "producer s = P_Put g \<Longrightarrow>
   producer_inv cfg s =
     (reading cfg s \<and> decoded s \<noteq> [] \<and>
      frame_number s = int (length (decoded s)) - 1 \<and>
      frame_number s mod frame_step s = 0 \<and>
      reads (video cfg) = map Some (decoded s) @ cap_pending s \<and>
      g = cvtColor_BGR2GRAY cfg (last (decoded s)) \<and>
      enqueued s = selected cfg s (butlast (decoded s)))"
  by (simp only: producer_inv_def ppc.case)

lemma producer_inv_producer_step:
  assumes ff: "fixed_fields cfg s" and inv: "producer_inv cfg s"
  shows "producer_inv cfg (producer_step cfg s)"
proof (cases "producer s")
  case P_Start
  have fps: "fps_limit s = arg_fps cfg" using ff by (simp add: fixed_fields_def)
  from P_Start inv fps show ?thesis
    by (simp add: producer_inv_def producer_step_def compute_frame_step_def reading_def
        selected_def)
next
  case P_Loop
  with inv have r: "reading cfg s" and n: "frame_number s = int (length (decoded s))"
    and rd: "reads (video cfg) = map Some (decoded s) @ cap_pending s"
    and e: "enqueued s = selected cfg s (decoded s)"
    by (simp_all add: producer_inv_def)
  show ?thesis
  proof (cases "running s")
    case False
    with P_Loop r n e show ?thesis
      by (simp add: producer_inv_def producer_step_def reading_def selected_def)
  next
    case True
    show ?thesis
    proof (cases "cap_pending s")
      case Nil
      with True P_Loop r n e show ?thesis
        by (simp add: producer_inv_def producer_step_def reading_def selected_def)
    next
      case (Cons x rest)
      show ?thesis
      proof (cases x)
        case None
        with Cons True P_Loop r n e show ?thesis
          by (simp add: producer_inv_def producer_step_def reading_def selected_def)
      next
        case (Some f)
        have tk: "take (Suc (length (decoded s))) (reads (video cfg)) =
            map Some (decoded s) @ [Some f]"
          using rd Cons Some by simp
        have rd': "reads (video cfg) = map Some (decoded s @ [f]) @ rest"
          using rd Cons Some by simp
        show ?thesis
        proof (cases "frame_number s mod frame_step s = 0")
          case True
          with Some Cons \<open>running s\<close> P_Loop r n e tk rd' show ?thesis
            by (simp add: producer_inv_def producer_step_def reading_def selected_def)
        next
          case False
          with Some Cons \<open>running s\<close> P_Loop r n e tk rd' show ?thesis
            by (simp add: producer_inv_def producer_step_def reading_def selected_def
                every_nth_snoc)
        qed
      qed
    qed
  qed
next
  case (P_Put g)
  from producer_inv_Put [OF P_Put, of cfg] inv have "reading cfg s \<and> decoded s \<noteq> [] \<and>
      frame_number s = int (length (decoded s)) - 1 \<and>
      frame_number s mod frame_step s = 0 \<and>
      reads (video cfg) = map Some (decoded s) @ cap_pending s \<and>
      g = cvtColor_BGR2GRAY cfg (last (decoded s)) \<and>
      enqueued s = selected cfg s (butlast (decoded s))"
    by blast
  then have r: "reading cfg s" and ne: "decoded s \<noteq> []"
    and n: "frame_number s = int (length (decoded s)) - 1"
    and m: "frame_number s mod frame_step s = 0"
    and rd: "reads (video cfg) = map Some (decoded s) @ cap_pending s"
    and g: "g = cvtColor_BGR2GRAY cfg (last (decoded s))"
    and e: "enqueued s = selected cfg s (butlast (decoded s))"
    by blast+
  show ?thesis
  proof (cases "queue_full s")
    case True
    with P_Put inv show ?thesis by (simp add: producer_step_def)
  next
    case False
    have len: "int (length (butlast (decoded s))) = frame_number s"
      using ne n by (cases "decoded s") simp_all
    have "selected cfg s (butlast (decoded s) @ [last (decoded s)]) =
        selected cfg s (butlast (decoded s)) @ [Some g]"
      using len m g by (simp add: selected_snoc)
    then have sel: "selected cfg s (decoded s) = enqueued s @ [Some g]"
      using ne e by simp
    from False P_Put r n rd sel ne show ?thesis
      by (simp add: producer_inv_def producer_step_def reading_def selected_def)
  qed
next
  case P_PutNone
  with inv show ?thesis
    by (cases "queue_full s")
       (simp_all add: producer_inv_def producer_step_def reading_def selected_def)
next
  case P_Release
  with inv show ?thesis
    by (simp add: producer_inv_def producer_step_def reading_def selected_def)
next
  case P_Done
  with inv show ?thesis by (simp add: producer_step_def)
next
  case (P_Raised e)
  with inv show ?thesis by (simp add: producer_step_def)
qed


lemma producer_inv_cases:
  assumes "producer_inv cfg s"
  shows "producer s = P_Loop \<Longrightarrow> reading cfg s \<and> frame_number s = int (length (decoded s)) \<and>
           enqueued s = selected cfg s (decoded s)"
    and "producer s = P_PutNone \<Longrightarrow> reading cfg s \<and> frame_number s = int (length (decoded s)) \<and>
           enqueued s = selected cfg s (decoded s)"
    and "producer s = P_Release \<Longrightarrow> reading cfg s \<and> frame_number s = int (length (decoded s)) \<and>
           enqueued s = selected cfg s (decoded s) @ [None]"
    and "producer s = P_Done \<Longrightarrow> cap_opened s \<Longrightarrow>
           reading cfg (s\<lparr>cap_released := False\<rparr>) \<and> cap_released s \<and>
           frame_number s = int (length (decoded s)) \<and>
           enqueued s = selected cfg s (decoded s) @ [None]"
    and "producer s = P_Done \<Longrightarrow> \<not> cap_opened s \<Longrightarrow>
           \<not> openable (video cfg) \<and> \<not> cap_released s \<and> enqueued s = [] \<and> decoded s = []"
    and "producer s = P_Start \<Longrightarrow>
           enqueued s = [] \<and> decoded s = [] \<and> \<not> cap_opened s \<and> \<not> cap_released s"
    and "producer s = P_Raised e \<Longrightarrow>
           (e = ZeroDivisionError \<and> arg_fps cfg = 0 \<or>
            e = OverflowError \<and> float_of_int_overflows (arg_fps cfg)) \<and>
           openable (video cfg) \<and> cap_opened s \<and> \<not> cap_released s \<and> enqueued s = [] \<and>
           decoded s = []"
  using assms by (simp_all add: producer_inv_def)
















section \<open>The capture handle\<close>

text \<open>
  Claim C7: the producer releases the capture on every path on which it ends, an error
  included. The program does not. Evaluated with a target rate of 0 and a video that opens:
  the stride computation raises after the capture was opened, the producer ends with the
  capture open and not released, and the session ends so. The same holds for the session
  in which the consumer raises and the producer is cancelled at its put of the marker.
\<close>

theorem zero_fps_leaves_capture_open:
  "producer (run zero_fps_config [Producer] (streaming_start zero_fps_config)) =
     P_Raised ZeroDivisionError \<and>
   cap_opened (run zero_fps_config [Producer] (streaming_start zero_fps_config)) \<and>
   \<not> cap_released (run zero_fps_config [Producer] (streaming_start zero_fps_config)) \<and>
   map_option producer (returned (main zero_fps_config [Producer, Consumer, Consumer])) =
     Some (P_Raised ZeroDivisionError) \<and>
   map_option consumer (returned (main zero_fps_config [Producer, Consumer, Consumer])) =
     Some (C_Raised CancelledError) \<and>
   map_option cap_opened (returned (main zero_fps_config [Producer, Consumer, Consumer])) =
     Some True \<and>
   map_option cap_released (returned (main zero_fps_config [Producer, Consumer, Consumer])) =
     Some False \<and>
   map_option cap_opened (returned (main stalled_config stalled_schedule)) = Some True \<and>
   map_option cap_released (returned (main stalled_config stalled_schedule)) = Some False"
  by code_simp

section \<open>Startup and exit status\<close>

lemma encoded_inv_step: "encoded_inv s \<Longrightarrow> encoded_inv (step cfg t s)"
  by (cases t)
     (auto simp: encoded_inv_def step_def producer_step_def consumer_step_def
        split: ppc.splits cpc.splits list.splits option.splits sum.splits)

lemma session_inv_start: "session_inv cfg (streaming_start cfg)"
  by (simp add: session_inv_def fixed_fields_start queue_inv_start sent_inv_start
      producer_inv_start)
     (simp add: encoded_inv_def streaming_start_def new_FinalStreamer_def)

lemma session_inv_step: "session_inv cfg s \<Longrightarrow> session_inv cfg (step cfg t s)"
  using fixed_fields_step [of cfg s t] encoded_inv_step [of s cfg t]
  by (cases t)
     (simp_all add: session_inv_def step_def queue_inv_producer_step queue_inv_consumer_step
        sent_inv_producer_step sent_inv_consumer_step producer_inv_producer_step
        producer_inv_consumer_step)

lemma session_inv_run: "session_inv cfg s \<Longrightarrow> session_inv cfg (run cfg sched s)"
  by (rule run_invariant) (simp_all add: session_inv_step)

lemma producer_inv_console:
  "producer_inv cfg (s\<lparr>console := c\<rparr>) = producer_inv cfg s"
  "producer_inv cfg (s\<lparr>connected := b\<rparr>) = producer_inv cfg s"
  by (cases "producer s"; simp add: producer_inv_def reading_def selected_def)+

lemma session_inv_console:
  "session_inv cfg (s\<lparr>console := c\<rparr>) = session_inv cfg s"
  "session_inv cfg (s\<lparr>connected := b\<rparr>) = session_inv cfg s"
  by (simp_all add: session_inv_def fixed_fields_def queue_inv_def sent_inv_def
      producer_inv_console encoded_inv_def)

lemma gather_is_run:
  "gather cfg sched s = Some (s', rest) \<Longrightarrow> \<exists>sched'. s' = run cfg sched' s"
proof (induction sched arbitrary: s)
  case Nil
  then have "s' = run cfg [] s" by (simp split: if_splits)
  then show ?case by blast
next
  case (Cons t ts)
  show ?case
  proof (cases "gather_finished s")
    case True
    with Cons.prems have "s' = run cfg [] s" by simp
    then show ?thesis by blast
  next
    case False
    with Cons.prems have "gather cfg ts (step cfg t s) = Some (s', rest)" by simp
    from Cons.IH [OF this] obtain sched' where "s' = run cfg sched' (step cfg t s)" by blast
    then have "s' = run cfg (t # sched') s" by (simp add: run_def)
    then show ?thesis by blast
  qed
qed

lemma nothing_streamed_unopenable:
  assumes "\<not> openable (video cfg)" and "session_inv cfg s"
  shows "enqueued s = [] \<and> sent s = []"
proof -
  have inv: "producer_inv cfg s" using assms(2) by (simp add: session_inv_def)
  have e: "enqueued s = []"
  proof (cases "producer s")
    case (P_Put g)
    from producer_inv_Put [OF P_Put, of cfg] inv assms(1) show ?thesis
      by (simp add: reading_def)
  next
    case P_Done
    then show ?thesis
      using producer_inv_cases(4,5) [OF inv P_Done] assms(1)
      by (cases "cap_opened s") (auto simp: reading_def)
  qed (use producer_inv_cases [OF inv] assms(1) in \<open>auto simp: reading_def\<close>)
  then have "dequeued s = []"
    using assms(2) by (simp add: session_inv_def queue_inv_def)
  then have "encoded s = []"
    using assms(2) by (simp add: session_inv_def encoded_inv_def)
  then have "sent s = []"
    using assms(2) by (simp add: session_inv_def sent_inv_def)
  with e show ?thesis by simp
qed

lemma cancel_suspended_fields:
  "cancel_suspended s = Some s' \<Longrightarrow> enqueued s' = enqueued s \<and> sent s' = sent s"
  by (auto simp: cancel_suspended_def split: if_splits)

lemma run_ended:
  "producer s = P_Done \<Longrightarrow> consumer s = C_Done \<Longrightarrow> run cfg sched s = s"
proof (induction sched rule: rev_induct)
  case Nil
  show ?case by simp
next
  case (snoc t ts)
  then show ?case
    by (cases t) (simp_all add: run_snoc step_def producer_step_def consumer_step_def)
qed

text \<open>
  Claim C5, as stated: a file that cannot be opened as a video ends the process with a
  status other than 0. It ends with status 0.
\<close>

theorem unopenable_exit_status_counterexample:
  "is_file (video unopenable_config) \<and> \<not> openable (video unopenable_config) \<and>
   map_option exit_status (main unopenable_config [Producer, Consumer]) = Some 0"
  by code_simp

text \<open>
  Claim C5, amended. A path that is no regular file ends the process at once with an error
  message, the usage text and status 1, before a streamer exists. A file that exists and
  does not open as a video is reported by the producer, after the transport was connected
  and the app uploaded: whenever \<open>main\<close> ends, it ends by returning, so with status 0,
  nothing was put on the queue and nothing was sent; and with the producer's turn first and
  the consumer's next it does end: the producer prints its error and clears the running
  flag, the consumer leaves its loop, and the transport is disconnected.
\<close>

theorem missing_or_unopenable_video:
  "(\<not> is_file (video cfg) \<longrightarrow>
      main cfg sched = Some (Exited [''Error: Video file not found'', ''usage''] 1)) \<and>
   (is_file (video cfg) \<and> \<not> openable (video cfg) \<longrightarrow>
      (\<forall>out. main cfg sched = Some out \<longrightarrow>
         exit_status out = 0 \<and>
         (\<exists>s. out = Returned s \<and> enqueued s = [] \<and> sent s = [])) \<and>
      (link_up cfg \<longrightarrow>
         (\<exists>s. main cfg (Producer # Consumer # sched) = Some (Returned s) \<and>
            console s = [''Uploading sprite player app...'',
              ''Error: Could not open video file'', ''Disconnecting...''] \<and>
            \<not> running s \<and> \<not> connected s \<and> producer s = P_Done \<and> consumer s = C_Done)))"
proof -
  have a: "\<not> is_file (video cfg) \<longrightarrow>
      main cfg sched = Some (Exited [''Error: Video file not found'', ''usage''] 1)"
    by (simp add: main_def)
  have b: "\<forall>out. \<not> openable (video cfg) \<and> is_file (video cfg) \<and> main cfg sched = Some out \<longrightarrow>
         exit_status out = 0 \<and> (\<exists>s. out = Returned s \<and> enqueued s = [] \<and> sent s = [])"
  proof (intro allI impI)
    fix out
    assume v: "\<not> openable (video cfg) \<and> is_file (video cfg) \<and> main cfg sched = Some out"
    then obtain s where s: "stream cfg sched = Some s" and out: "out = Returned s"
      by (auto simp: main_def)
    have "enqueued s = [] \<and> sent s = []"
    proof (cases "link_up cfg")
      case False
      with s show ?thesis by (auto simp: stream_def Let_def new_FinalStreamer_def)
    next
      case True
      with s obtain s1 rest where g: "gather cfg sched (streaming_start cfg) = Some (s1, rest)"
        and c: "cancel_suspended (run cfg rest
                  ((if task_raised s1 then s1\<lparr>console := console s1 @ [''An error occurred'']\<rparr>
                    else s1)
                   \<lparr>console := console (if task_raised s1
                        then s1\<lparr>console := console s1 @ [''An error occurred'']\<rparr> else s1) @
                        [''Disconnecting...''], connected := False\<rparr>)) = Some s"
        by (auto simp: stream_def Let_def split: option.splits)
      from gather_is_run [OF g] obtain sched' where "s1 = run cfg sched' (streaming_start cfg)"
        by blast
      then have i1: "session_inv cfg s1"
        using session_inv_run [OF session_inv_start, of cfg sched'] by simp
      let ?s2 = "(if task_raised s1 then s1\<lparr>console := console s1 @ [''An error occurred'']\<rparr>
                    else s1)
                   \<lparr>console := console (if task_raised s1
                        then s1\<lparr>console := console s1 @ [''An error occurred'']\<rparr> else s1) @
                        [''Disconnecting...''], connected := False\<rparr>"
      have "session_inv cfg ?s2" using i1 by (simp add: session_inv_console)
      then have "session_inv cfg (run cfg rest ?s2)" by (rule session_inv_run)
      with nothing_streamed_unopenable [of cfg "run cfg rest ?s2"] v
      have "enqueued (run cfg rest ?s2) = [] \<and> sent (run cfg rest ?s2) = []" by blast
      with cancel_suspended_fields [OF c] show ?thesis by simp
    qed
    with out show "exit_status out = 0 \<and> (\<exists>s. out = Returned s \<and> enqueued s = [] \<and> sent s = [])"
      by simp
  qed
  have c: "is_file (video cfg) \<and> \<not> openable (video cfg) \<and> link_up cfg \<longrightarrow>
         (\<exists>s. main cfg (Producer # Consumer # sched) = Some (Returned s) \<and>
            console s = [''Uploading sprite player app...'',
              ''Error: Could not open video file'', ''Disconnecting...''] \<and>
            \<not> running s \<and> \<not> connected s \<and> producer s = P_Done \<and> consumer s = C_Done)"
    by (cases sched)
       (simp_all add: main_def stream_def Let_def streaming_start_def new_FinalStreamer_def
          step_def producer_step_def consumer_step_def gather_finished_def task_raised_def
          run_ended cancel_suspended_def producer_ended_def consumer_ended_def)
  from a b c show ?thesis by blast
qed

theorem missing_or_unopenable_video_witness:
  "is_file (video unopenable_config) \<and> \<not> openable (video unopenable_config) \<and>
   link_up unopenable_config \<and>
   (\<exists>s. main unopenable_config [Producer, Consumer] = Some (Returned s) \<and>
      console s = [''Uploading sprite player app...'',
        ''Error: Could not open video file'', ''Disconnecting...''] \<and>
      enqueued s = [] \<and> sent s = []) \<and>
   main (unopenable_config\<lparr>video := (video unopenable_config)\<lparr>is_file := False\<rparr>\<rparr>) [] =
     Some (Exited [''Error: Video file not found'', ''usage''] 1)"
proof -
  have a: "is_file (video unopenable_config)" "\<not> openable (video unopenable_config)"
    "link_up unopenable_config"
    by (simp_all add: unopenable_config_def example_config_def)
  from missing_or_unopenable_video [of unopenable_config "[]"] a
  obtain s where s: "main unopenable_config [Producer, Consumer] = Some (Returned s)"
    and c: "console s = [''Uploading sprite player app...'',
        ''Error: Could not open video file'', ''Disconnecting...'']"
    by blast
  from missing_or_unopenable_video [of unopenable_config "[Producer, Consumer]"] a s
  have "enqueued s = [] \<and> sent s = []" by auto
  moreover have "main (unopenable_config\<lparr>video := (video unopenable_config)\<lparr>is_file := False\<rparr>\<rparr>) [] =
     Some (Exited [''Error: Video file not found'', ''usage''] 1)"
    using missing_or_unopenable_video
      [of "unopenable_config\<lparr>video := (video unopenable_config)\<lparr>is_file := False\<rparr>\<rparr>" "[]"]
    by simp
  ultimately show ?thesis using a s c by blast
qed

end
